theory Spec2Isabelle
  imports Main "HOL-Library.Sublist"
begin

section \<open>BigQuery jobs: the client-side job handle of \<^verbatim>\<open>gcp/bigquery/_job.py\<close>\<close>

text \<open>
  The class \<^verbatim>\<open>Job\<close> caches the completion state of a remote job. Every accessor first
  calls \<^verbatim>\<open>_refresh_state\<close>, which asks the API object for the job resource unless the
  job is already known to be complete, and reads the reply with dictionary operations.
  The embedding below makes explicit what the Python leaves implicit:
  \<^item> the reply is a dynamically typed value, so every operation on it that Python would
    reject is a raised exception in the model;
  \<^item> the object's fields and the two outside effects (requests sent to the API, calls to
    \<^verbatim>\<open>sleep\<close>) form a state that each function takes and returns, also when it raises;
  \<^item> the loop of \<^verbatim>\<open>wait\<close> need not end, so it is a partial function whose value
    \<open>None\<close> stands for a call that never returns.
\<close>

subsection \<open>Values of a decoded reply\<close>

text \<open>
  What the JSON decoder hands over: \<^verbatim>\<open>None\<close>, booleans, integers, strings, lists and
  dictionaries with string keys. A dictionary is an association list read with
  \<open>map_of\<close>. The code never computes with a number, so integers stand for all numbers.
\<close>

datatype pyval =
    PNone
  | PBool bool
  | PInt int
  | PStr string
  | PList "pyval list"
  | PDict "(string \<times> pyval) list"

text \<open>
  The exceptions that can leave the code: whatever \<^verbatim>\<open>jobs_get\<close> raises (carried as
  \<open>ApiError\<close> with its payload), the errors of Python's own operations on a value of the
  wrong type, and the rejection of a negative argument by \<^verbatim>\<open>sleep\<close>.
\<close>

datatype exn =
    ApiError string
  | TypeError
  | AttributeError
  | KeyError
  | InvalidSleep

text \<open>\<^verbatim>\<open>JobError = collections.namedtuple('JobError', ['location', 'message', 'reason'])\<close>\<close>

record JobError =
  location :: pyval
  message :: pyval
  reason :: pyval

subsection \<open>Python's operations on a reply\<close>

text \<open>\<^verbatim>\<open>needle in hay\<close> for two strings: \<open>needle\<close> occurs in \<open>hay\<close> as a contiguous run.\<close>

fun str_contains :: "string \<Rightarrow> string \<Rightarrow> bool" where
  "str_contains needle [] = (needle = [])"
| "str_contains needle (c # cs) = (prefix needle (c # cs) \<or> str_contains needle cs)"

text \<open>
  \<^verbatim>\<open>k in v\<close> for a string \<open>k\<close>: a key test on a dictionary, a membership test on a
  list, a substring test on a string, and a \<^verbatim>\<open>TypeError\<close> on anything else.
\<close>

fun py_in :: "string \<Rightarrow> pyval \<Rightarrow> exn + bool" where
  "py_in k (PDict kvs) = Inr (map_of kvs k \<noteq> None)"
| "py_in k (PList xs) = Inr (PStr k \<in> set xs)"
| "py_in k (PStr s) = Inr (str_contains k s)"
| "py_in k PNone = Inl TypeError"
| "py_in k (PBool b) = Inl TypeError"
| "py_in k (PInt i) = Inl TypeError"

text \<open>
  \<^verbatim>\<open>v[k]\<close> for a string \<open>k\<close>: the stored value of a dictionary (\<^verbatim>\<open>KeyError\<close> when the
  key is missing); lists and strings take no string index, the rest no index at all.
\<close>

fun py_getitem :: "pyval \<Rightarrow> string \<Rightarrow> exn + pyval" where
  "py_getitem (PDict kvs) k = (case map_of kvs k of None \<Rightarrow> Inl KeyError | Some v \<Rightarrow> Inr v)"
| "py_getitem (PList xs) k = Inl TypeError"
| "py_getitem (PStr s) k = Inl TypeError"
| "py_getitem PNone k = Inl TypeError"
| "py_getitem (PBool b) k = Inl TypeError"
| "py_getitem (PInt i) k = Inl TypeError"

text \<open>\<^verbatim>\<open>v.get(k, None)\<close>: only a dictionary has the method.\<close>

fun py_get :: "pyval \<Rightarrow> string \<Rightarrow> exn + pyval" where
  "py_get (PDict kvs) k = Inr (case map_of kvs k of None \<Rightarrow> PNone | Some v \<Rightarrow> v)"
| "py_get (PList xs) k = Inl AttributeError"
| "py_get (PStr s) k = Inl AttributeError"
| "py_get PNone k = Inl AttributeError"
| "py_get (PBool b) k = Inl AttributeError"
| "py_get (PInt i) k = Inl AttributeError"

text \<open>
  \<^verbatim>\<open>for error in v\<close>: the elements of a list, the keys of a dictionary, the
  one-character strings of a string; nothing else is iterable.
\<close>

fun py_iter :: "pyval \<Rightarrow> exn + pyval list" where
  "py_iter (PList xs) = Inr xs"
| "py_iter (PDict kvs) = Inr (map PStr (remdups (map fst kvs)))"
| "py_iter (PStr s) = Inr (map (\<lambda>c. PStr [c]) s)"
| "py_iter PNone = Inl TypeError"
| "py_iter (PBool b) = Inl TypeError"
| "py_iter (PInt i) = Inl TypeError"

subsection \<open>The job handle and its surroundings\<close>

text \<open>
  The four fields that \<^verbatim>\<open>__init__\<close> sets (\<^verbatim>\<open>self._api\<close> is the parameter \<open>api\<close> of
  the functions below), and the trace of the two outside effects: the job ids sent to
  \<^verbatim>\<open>jobs_get\<close> and the arguments of the calls of \<^verbatim>\<open>sleep\<close>, oldest first.
\<close>

record world =
  self_job_id :: string
  self_is_complete :: bool
  self_errors :: "JobError list option"
  self_fatal_error :: "JobError option"
  api_log :: "string list"
  sleep_log :: "int list"

text \<open>
  The API object: the outcome of \<^verbatim>\<open>jobs_get(job_id)\<close>, which may depend on every
  request made before. It either raises or returns a decoded reply.
\<close>

type_synonym api = "string list \<Rightarrow> string \<Rightarrow> exn + pyval"

definition init :: "string \<Rightarrow> string list \<Rightarrow> int list \<Rightarrow> world" where
  "init job_id requests sleeps =
     \<lparr>self_job_id = job_id, self_is_complete = False, self_errors = None,
      self_fatal_error = None, api_log = requests, sleep_log = sleeps\<rparr>"

definition jobs_get :: "api \<Rightarrow> string \<Rightarrow> world \<Rightarrow> (exn + pyval) \<times> world" where
  "jobs_get api job_id w = (api (api_log w) job_id, w\<lparr>api_log := api_log w @ [job_id]\<rparr>)"

text \<open>\<^verbatim>\<open>time.sleep\<close> refuses a negative length and otherwise returns after the delay.\<close>

definition sleep :: "int \<Rightarrow> world \<Rightarrow> (exn + unit) \<times> world" where
  "sleep secs w =
     (if secs < 0 then (Inl InvalidSleep, w)
      else (Inr (), w\<lparr>sleep_log := sleep_log w @ [secs]\<rparr>))"

subsection \<open>\<^verbatim>\<open>Job._refresh_state\<close>\<close>

text \<open>
  Lines 108 to 111 and 115 to 118: three \<^verbatim>\<open>get\<close> calls in the order location, message,
  reason, then the tuple.
\<close>

definition job_error_of :: "pyval \<Rightarrow> exn + JobError" where
  "job_error_of e =
     (case py_get e ''location'' of Inl x \<Rightarrow> Inl x | Inr l \<Rightarrow>
      (case py_get e ''message'' of Inl x \<Rightarrow> Inl x | Inr m \<Rightarrow>
       (case py_get e ''reason'' of Inl x \<Rightarrow> Inl x | Inr r \<Rightarrow>
          Inr \<lparr>location = l, message = m, reason = r\<rparr>)))"

text \<open>
  Lines 114 to 118, the loop body run over the elements still to come. The list in
  \<^verbatim>\<open>self._errors\<close> grows in place; an exception leaves what was appended so far.
\<close>

fun append_errors :: "pyval list \<Rightarrow> world \<Rightarrow> (exn + unit) \<times> world" where
  "append_errors [] w = (Inr (), w)"
| "append_errors (error # rest) w =
     (case job_error_of error of
        Inl x \<Rightarrow> (Inl x, w)
      | Inr je \<Rightarrow>
          append_errors rest (w\<lparr>self_errors := map_option (\<lambda>es. es @ [je]) (self_errors w)\<rparr>))"

text \<open>Lines 106 to 111.\<close>

definition read_error_result :: "pyval \<Rightarrow> world \<Rightarrow> (exn + unit) \<times> world" where
  "read_error_result status w =
     (case py_in ''errorResult'' status of
        Inl x \<Rightarrow> (Inl x, w)
      | Inr present \<Rightarrow>
          if present then
            (case py_getitem status ''errorResult'' of
               Inl x \<Rightarrow> (Inl x, w)
             | Inr error_result \<Rightarrow>
                 (case job_error_of error_result of
                    Inl x \<Rightarrow> (Inl x, w)
                  | Inr je \<Rightarrow> (Inr (), w\<lparr>self_fatal_error := Some je\<rparr>)))
          else (Inr (), w))"

text \<open>Lines 112 to 118: the empty list is stored before the reply's list is read.\<close>

definition read_errors :: "pyval \<Rightarrow> world \<Rightarrow> (exn + unit) \<times> world" where
  "read_errors status w =
     (case py_in ''errors'' status of
        Inl x \<Rightarrow> (Inl x, w)
      | Inr present \<Rightarrow>
          if present then
            (let w1 = w\<lparr>self_errors := Some []\<rparr> in
             case py_getitem status ''errors'' of
               Inl x \<Rightarrow> (Inl x, w1)
             | Inr v \<Rightarrow>
                 (case py_iter v of
                    Inl x \<Rightarrow> (Inl x, w1)
                  | Inr items \<Rightarrow> append_errors items w1))
          else (Inr (), w))"

text \<open>Line 104: \<^verbatim>\<open>'state' in status and status['state'] == 'DONE'\<close>, left to right.\<close>

definition state_is_done :: "pyval \<Rightarrow> exn + bool" where
  "state_is_done status =
     (case py_in ''state'' status of
        Inl x \<Rightarrow> Inl x
      | Inr present \<Rightarrow>
          if present then
            (case py_getitem status ''state'' of
               Inl x \<Rightarrow> Inl x
             | Inr v \<Rightarrow> Inr (v = PStr ''DONE''))
          else Inr False)"

text \<open>Lines 105 to 118: the flag is set first, then the two error fields are read.\<close>

definition read_done :: "pyval \<Rightarrow> world \<Rightarrow> (exn + unit) \<times> world" where
  "read_done status w =
     (case read_error_result status (w\<lparr>self_is_complete := True\<rparr>) of
        (Inl x, w1) \<Rightarrow> (Inl x, w1)
      | (Inr u, w1) \<Rightarrow> read_errors status w1)"

text \<open>Lines 102 to 118, the reading of one reply.\<close>

definition read_response :: "pyval \<Rightarrow> world \<Rightarrow> (exn + unit) \<times> world" where
  "read_response response w =
     (case py_in ''status'' response of
        Inl x \<Rightarrow> (Inl x, w)
      | Inr present \<Rightarrow>
          if present then
            (case py_getitem response ''status'' of
               Inl x \<Rightarrow> (Inl x, w)
             | Inr status \<Rightarrow>
                 (case state_is_done status of
                    Inl x \<Rightarrow> (Inl x, w)
                  | Inr done \<Rightarrow> if done then read_done status w else (Inr (), w)))
          else (Inr (), w))"

text \<open>Lines 97 to 100, then the reading of the reply.\<close>

definition refresh_state :: "api \<Rightarrow> world \<Rightarrow> (exn + unit) \<times> world" where
  "refresh_state api w =
     (if self_is_complete w then (Inr (), w)
      else
        (case jobs_get api (self_job_id w) w of
           (Inl x, w1) \<Rightarrow> (Inl x, w1)
         | (Inr response, w1) \<Rightarrow> read_response response w1))"

subsection \<open>The accessors\<close>

definition iscomplete :: "api \<Rightarrow> world \<Rightarrow> (exn + bool) \<times> world" where
  "iscomplete api w =
     (case refresh_state api w of
        (Inl x, w1) \<Rightarrow> (Inl x, w1)
      | (Inr u, w1) \<Rightarrow> (Inr (self_is_complete w1), w1))"

text \<open>
  \<^verbatim>\<open>return self._is_complete and self._fatal_error\<close>: Python's \<^verbatim>\<open>and\<close> returns its left
  operand when that is false and its right operand otherwise, so the call returns
  \<^verbatim>\<open>False\<close>, \<^verbatim>\<open>None\<close> or the stored tuple.
\<close>

datatype failed_result =
    RBool bool
  | RNone
  | RJobError JobError

definition failed :: "api \<Rightarrow> world \<Rightarrow> (exn + failed_result) \<times> world" where
  "failed api w =
     (case refresh_state api w of
        (Inl x, w1) \<Rightarrow> (Inl x, w1)
      | (Inr u, w1) \<Rightarrow>
          (Inr (if self_is_complete w1
                then (case self_fatal_error w1 of None \<Rightarrow> RNone | Some je \<Rightarrow> RJobError je)
                else RBool False), w1))"

text \<open>
  The truth value Python gives a result of \<^verbatim>\<open>failed\<close> in a condition: \<^verbatim>\<open>None\<close> is
  false, and a named tuple of three fields is a non-empty tuple, hence true.
\<close>

fun truthy :: "failed_result \<Rightarrow> bool" where
  "truthy (RBool b) = b"
| "truthy RNone = False"
| "truthy (RJobError je) = True"

definition fatal_error :: "api \<Rightarrow> world \<Rightarrow> (exn + JobError option) \<times> world" where
  "fatal_error api w =
     (case refresh_state api w of
        (Inl x, w1) \<Rightarrow> (Inl x, w1)
      | (Inr u, w1) \<Rightarrow> (Inr (self_fatal_error w1), w1))"

definition errors :: "api \<Rightarrow> world \<Rightarrow> (exn + JobError list option) \<times> world" where
  "errors api w =
     (case refresh_state api w of
        (Inl x, w1) \<Rightarrow> (Inl x, w1)
      | (Inr u, w1) \<Rightarrow> (Inr (self_errors w1), w1))"

subsection \<open>\<^verbatim>\<open>Job.wait\<close>\<close>

text \<open>
  The loop of lines 130 to 136, with \<^verbatim>\<open>timeout\<close> and \<^verbatim>\<open>poll\<close> as integers. The result
  \<open>None\<close> is a call that polls forever.
\<close>

partial_function (option) wait ::
  "api \<Rightarrow> int option \<Rightarrow> int \<Rightarrow> world \<Rightarrow> ((exn + bool) \<times> world) option" where
  "wait api timeout poll w =
     (case iscomplete api w of
        (Inl x, w1) \<Rightarrow> Some (Inl x, w1)
      | (Inr complete, w1) \<Rightarrow>
          if complete then Some (Inr True, w1)
          else
            (case timeout of
               Some t \<Rightarrow>
                 if t \<le> 0 then Some (Inr False, w1)
                 else
                   (case sleep poll w1 of
                      (Inl x, w2) \<Rightarrow> Some (Inl x, w2)
                    | (Inr u, w2) \<Rightarrow> wait api (Some (t - poll)) poll w2)
             | None \<Rightarrow>
                 (case sleep poll w1 of
                    (Inl x, w2) \<Rightarrow> Some (Inl x, w2)
                  | (Inr u, w2) \<Rightarrow> wait api None poll w2)))"

declare wait.simps [code]

subsection \<open>Sequences of calls\<close>

text \<open>
  What a caller can do with a handle. A caller may catch an exception and go on using
  the handle, so a sequence of calls threads the state through and drops the results.
\<close>

datatype call =
    Iscomplete
  | Failed
  | Fatal_error
  | Errors
  | Wait "int option" int

fun run_call :: "api \<Rightarrow> call \<Rightarrow> world \<Rightarrow> world option" where
  "run_call api Iscomplete w = Some (snd (iscomplete api w))"
| "run_call api Failed w = Some (snd (failed api w))"
| "run_call api Fatal_error w = Some (snd (fatal_error api w))"
| "run_call api Errors w = Some (snd (errors api w))"
| "run_call api (Wait timeout poll) w = map_option snd (wait api timeout poll w)"

fun run_calls :: "api \<Rightarrow> call list \<Rightarrow> world \<Rightarrow> world option" where
  "run_calls api [] w = Some w"
| "run_calls api (c # cs) w =
     (case run_call api c w of None \<Rightarrow> None | Some w1 \<Rightarrow> run_calls api cs w1)"

text \<open>The state after \<open>n\<close> refreshes in a row, whatever each of them returned or raised.\<close>

fun refreshes :: "api \<Rightarrow> nat \<Rightarrow> world \<Rightarrow> world" where
  "refreshes api 0 w = w"
| "refreshes api (Suc n) w = refreshes api n (snd (refresh_state api w))"

subsection \<open>Replies and API objects used in the statements\<close>

text \<open>
  A reply of the documented shape that does not report the terminal state: a dictionary
  without \<^verbatim>\<open>status\<close>, or whose \<^verbatim>\<open>status\<close> is a dictionary without
  \<^verbatim>\<open>state\<close> or with a \<^verbatim>\<open>state\<close> other than \<^verbatim>\<open>'DONE'\<close>.
\<close>

fun non_terminal :: "pyval \<Rightarrow> bool" where
  "non_terminal (PDict r) =
     (case map_of r ''status'' of
        None \<Rightarrow> True
      | Some (PDict s) \<Rightarrow>
          (case map_of s ''state'' of None \<Rightarrow> True | Some v \<Rightarrow> v \<noteq> PStr ''DONE'')
      | Some other \<Rightarrow> False)"
| "non_terminal other = False"

text \<open>The field of a tuple built from the dictionary \<open>d\<close>: its value, or \<^verbatim>\<open>None\<close>.\<close>

definition field_or_none :: "(string \<times> pyval) list \<Rightarrow> string \<Rightarrow> pyval" where
  "field_or_none d k = (case map_of d k of None \<Rightarrow> PNone | Some v \<Rightarrow> v)"

text \<open>
  The parsing rule in the specification's words: each of the three fields is the
  payload's value when the payload has the key and unset otherwise.
\<close>

definition spec_error_detail :: "(string \<times> pyval) list \<Rightarrow> JobError" where
  "spec_error_detail d =
     \<lparr>location = field_or_none d ''location'', message = field_or_none d ''message'',
      reason = field_or_none d ''reason''\<rparr>"

text \<open>An API object that answers every request alike, and one that follows a script.\<close>

definition always :: "exn + pyval \<Rightarrow> api" where
  "always outcome = (\<lambda>requests job_id. outcome)"

definition scripted :: "(exn + pyval) list \<Rightarrow> exn + pyval \<Rightarrow> api" where
  "scripted outcomes later =
     (\<lambda>requests job_id.
        if length requests < length outcomes then outcomes ! length requests else later)"

definition done_reply :: "(string \<times> pyval) list \<Rightarrow> pyval" where
  "done_reply extra = PDict [(''status'', PDict ((''state'', PStr ''DONE'') # extra))]"

definition failing_reply :: pyval where
  "failing_reply =
     done_reply [(''errorResult'', PDict [(''message'', PStr ''boom'')]),
                 (''errors'', PList [PDict [(''reason'', PStr ''a'')]])]"

definition running_reply :: pyval where
  "running_reply = PDict [(''status'', PDict [(''state'', PStr ''RUNNING'')])]"

section \<open>Properties\<close>

subsection \<open>What the readers of a reply leave alone\<close>

lemma append_errors_frame:
  "self_is_complete (snd (append_errors xs w)) = self_is_complete w \<and>
   self_job_id (snd (append_errors xs w)) = self_job_id w \<and>
   self_fatal_error (snd (append_errors xs w)) = self_fatal_error w \<and>
   api_log (snd (append_errors xs w)) = api_log w \<and>
   sleep_log (snd (append_errors xs w)) = sleep_log w"
  by (induction xs arbitrary: w) (auto split: sum.splits)

lemma read_error_result_frame:
  "self_is_complete (snd (read_error_result st w)) = self_is_complete w \<and>
   self_job_id (snd (read_error_result st w)) = self_job_id w \<and>
   self_errors (snd (read_error_result st w)) = self_errors w \<and>
   api_log (snd (read_error_result st w)) = api_log w \<and>
   sleep_log (snd (read_error_result st w)) = sleep_log w"
  by (auto simp: read_error_result_def split: sum.splits)

lemma read_errors_frame:
  "self_is_complete (snd (read_errors st w)) = self_is_complete w \<and>
   self_job_id (snd (read_errors st w)) = self_job_id w \<and>
   self_fatal_error (snd (read_errors st w)) = self_fatal_error w \<and>
   api_log (snd (read_errors st w)) = api_log w \<and>
   sleep_log (snd (read_errors st w)) = sleep_log w"
  by (auto simp: read_errors_def Let_def append_errors_frame split: sum.splits)

lemma read_done_frame:
  "self_is_complete (snd (read_done st w)) \<and>
   self_job_id (snd (read_done st w)) = self_job_id w \<and>
   api_log (snd (read_done st w)) = api_log w \<and>
   sleep_log (snd (read_done st w)) = sleep_log w"
proof -
  let ?w0 = "w\<lparr>self_is_complete := True\<rparr>"
  obtain r1 w1 where e: "read_error_result st ?w0 = (r1, w1)"
    by (cases "read_error_result st ?w0")
  from read_error_result_frame [of st ?w0] e
  have f1: "self_is_complete w1" "self_job_id w1 = self_job_id w" "api_log w1 = api_log w"
    "sleep_log w1 = sleep_log w"
    by simp_all
  show ?thesis
  proof (cases r1)
    case (Inl x)
    with e f1 show ?thesis by (simp add: read_done_def)
  next
    case (Inr u)
    with e f1 read_errors_frame [of st w1] show ?thesis by (simp add: read_done_def)
  qed
qed

lemma read_response_cases:
  "read_response resp w = (Inr (), w) \<or> (\<exists>x. read_response resp w = (Inl x, w)) \<or>
   (\<exists>status. read_response resp w = read_done status w)"
  unfolding read_response_def
  by (auto split: sum.splits)

lemma read_response_frame:
  "self_job_id (snd (read_response resp w)) = self_job_id w \<and>
   api_log (snd (read_response resp w)) = api_log w \<and>
   sleep_log (snd (read_response resp w)) = sleep_log w"
  using read_response_cases [of resp w] read_done_frame [of _ w] by auto

lemma read_response_unchanged_or_complete:
  "snd (read_response resp w) = w \<or> self_is_complete (snd (read_response resp w))"
  using read_response_cases [of resp w] read_done_frame [of _ w] by auto

subsection \<open>One refresh\<close>

lemma refresh_state_complete:
  "self_is_complete w \<Longrightarrow> refresh_state api w = (Inr (), w)"
  by (simp add: refresh_state_def)

lemma refresh_state_incomplete:
  "\<not> self_is_complete w \<Longrightarrow>
   refresh_state api w =
     (case api (api_log w) (self_job_id w) of
        Inl x \<Rightarrow> (Inl x, w\<lparr>api_log := api_log w @ [self_job_id w]\<rparr>)
      | Inr response \<Rightarrow> read_response response (w\<lparr>api_log := api_log w @ [self_job_id w]\<rparr>))"
  by (simp add: refresh_state_def jobs_get_def split: sum.splits)

lemma refresh_state_frame:
  "self_job_id (snd (refresh_state api w)) = self_job_id w \<and>
   sleep_log (snd (refresh_state api w)) = sleep_log w \<and>
   api_log (snd (refresh_state api w)) =
     (if self_is_complete w then api_log w else api_log w @ [self_job_id w])"
proof (cases "self_is_complete w")
  case True
  then show ?thesis by (simp add: refresh_state_complete)
next
  case False
  then show ?thesis
    using read_response_frame [of _ "w\<lparr>api_log := api_log w @ [self_job_id w]\<rparr>"]
    by (simp add: refresh_state_incomplete split: sum.splits)
qed

lemma refresh_state_still_incomplete:
  assumes "\<not> self_is_complete (snd (refresh_state api w))"
  shows "snd (refresh_state api w) = w\<lparr>api_log := api_log w @ [self_job_id w]\<rparr>"
proof -
  from assms have inc: "\<not> self_is_complete w"
    by (auto simp: refresh_state_complete)
  let ?w1 = "w\<lparr>api_log := api_log w @ [self_job_id w]\<rparr>"
  show ?thesis
  proof (cases "api (api_log w) (self_job_id w)")
    case (Inl x)
    with inc show ?thesis by (simp add: refresh_state_incomplete)
  next
    case (Inr response)
    with inc assms read_response_unchanged_or_complete [of response ?w1]
    show ?thesis by (auto simp: refresh_state_incomplete)
  qed
qed

subsection \<open>The accessors and the loop\<close>

lemma accessor_state:
  "snd (iscomplete api w) = snd (refresh_state api w)"
  "snd (failed api w) = snd (refresh_state api w)"
  "snd (fatal_error api w) = snd (refresh_state api w)"
  "snd (errors api w) = snd (refresh_state api w)"
  by (simp_all add: iscomplete_def failed_def fatal_error_def errors_def
      split: prod.splits sum.splits)

lemma iscomplete_complete:
  "self_is_complete w \<Longrightarrow> iscomplete api w = (Inr True, w)"
  by (simp add: iscomplete_def refresh_state_complete)

lemma iscomplete_False:
  assumes "iscomplete api w = (Inr False, w1)"
  shows "\<not> self_is_complete w \<and> w1 = w\<lparr>api_log := api_log w @ [self_job_id w]\<rparr>"
proof -
  from assms have "\<not> self_is_complete w1" and w1: "w1 = snd (refresh_state api w)"
    by (auto simp: iscomplete_def split: prod.splits sum.splits)
  then show ?thesis
    using refresh_state_still_incomplete [of api w] refresh_state_complete [of w api]
    by auto
qed

lemma wait_complete:
  "self_is_complete w \<Longrightarrow> wait api timeout poll w = Some (Inr True, w)"
  by (subst wait.simps) (simp add: iscomplete_complete)

lemma wait_trace:
  assumes run: "wait api timeout poll w = Some y"
  shows "\<not> self_is_complete w \<longrightarrow>
     self_job_id (snd y) = self_job_id w \<and>
     (\<exists>n. api_log (snd y) = api_log w @ replicate (Suc n) (self_job_id w) \<and>
          sleep_log (snd y) = sleep_log w @ replicate n poll)"
proof (rule wait.raw_induct [where P = "\<lambda>api timeout poll w y. \<not> self_is_complete w \<longrightarrow>
     self_job_id (snd y) = self_job_id w \<and>
     (\<exists>n. api_log (snd y) = api_log w @ replicate (Suc n) (self_job_id w) \<and>
          sleep_log (snd y) = sleep_log w @ replicate n poll)", OF _ run], goal_cases)
  case (1 wt api timeout poll w y)
  show ?case
  proof
    assume inc: "\<not> self_is_complete w"
    obtain r w1 where ic: "iscomplete api w = (r, w1)" by (cases "iscomplete api w")
    from accessor_state(1) [of api w] ic refresh_state_frame [of api w] inc
    have f1: "self_job_id w1 = self_job_id w" "sleep_log w1 = sleep_log w"
      "api_log w1 = api_log w @ [self_job_id w]"
      by auto
    have stop: "self_job_id w1 = self_job_id w \<and>
     (\<exists>n. api_log w1 = api_log w @ replicate (Suc n) (self_job_id w) \<and>
          sleep_log w1 = sleep_log w @ replicate n poll)"
      using f1 by (intro conjI exI [of _ 0]) simp_all
    let ?w2 = "w1\<lparr>sleep_log := sleep_log w1 @ [poll]\<rparr>"
    have go: "self_job_id (snd y) = self_job_id w \<and>
     (\<exists>n. api_log (snd y) = api_log w @ replicate (Suc n) (self_job_id w) \<and>
          sleep_log (snd y) = sleep_log w @ replicate n poll)"
      if rec: "wt api t' poll ?w2 = Some y" and r: "r = Inr False" for t'
    proof -
      from ic r have w1: "w1 = w\<lparr>api_log := api_log w @ [self_job_id w]\<rparr>"
        using iscomplete_False by blast
      with inc have "\<not> self_is_complete ?w2" by simp
      with 1(1) [OF rec] obtain n where
        "self_job_id (snd y) = self_job_id ?w2"
        "api_log (snd y) = api_log ?w2 @ replicate (Suc n) (self_job_id ?w2)"
        "sleep_log (snd y) = sleep_log ?w2 @ replicate n poll"
        by blast
      with f1 show ?thesis
        by (intro conjI exI [of _ "Suc n"]) (simp_all add: replicate_app_Cons_same)
    qed
    from 1(2) [unfolded ic] consider (halt) "snd y = w1"
      | (again) t' where "r = Inr False" "wt api t' poll ?w2 = Some y"
      by (auto simp: sleep_def split: sum.splits if_splits option.splits)
    then show "self_job_id (snd y) = self_job_id w \<and>
     (\<exists>n. api_log (snd y) = api_log w @ replicate (Suc n) (self_job_id w) \<and>
          sleep_log (snd y) = sleep_log w @ replicate n poll)"
    proof cases
      case halt
      with stop show ?thesis by simp
    next
      case again
      then show ?thesis using go by blast
    qed
  qed
qed

subsection \<open>Requests sent to the API\<close>

lemma run_call_complete:
  "self_is_complete w \<Longrightarrow> run_call api c w = Some w"
  by (cases c)
    (simp_all add: accessor_state refresh_state_complete wait_complete)

lemma run_calls_complete:
  "self_is_complete w \<Longrightarrow> run_calls api cs w = Some w"
  by (induction cs) (simp_all add: run_call_complete)

text \<open>
  Claim C1 (cache trust). Once \<^verbatim>\<open>_is_complete\<close> is true, a refresh returns at once
  without a request, and so does every refresh triggered by any sequence of later
  calls of \<^verbatim>\<open>iscomplete\<close>, \<^verbatim>\<open>failed\<close>, \<^verbatim>\<open>fatal_error\<close>, \<^verbatim>\<open>errors\<close> and
  \<^verbatim>\<open>wait\<close>: every call of the sequence returns and the list of requests sent to the API
  is the one before the sequence.
\<close>

theorem complete_handle_never_asks_api:
  "self_is_complete w \<Longrightarrow>
   refresh_state api w = (Inr (), w) \<and>
   (\<exists>w'. run_calls api cs w = Some w' \<and> api_log w' = api_log w)"
  by (simp add: refresh_state_complete run_calls_complete)

theorem complete_handle_never_asks_api_witness:
  "self_is_complete ((init ''job1'' [''job1''] [])\<lparr>self_is_complete := True\<rparr>) \<and>
   (\<exists>w'. run_calls (always (Inr running_reply))
           [Iscomplete, Failed, Wait None 5, Errors, Fatal_error, Wait (Some 10) 5]
           ((init ''job1'' [''job1''] [])\<lparr>self_is_complete := True\<rparr>) = Some w' \<and>
         api_log w' = [''job1''])"
  using complete_handle_never_asks_api
    [of "(init ''job1'' [''job1''] [])\<lparr>self_is_complete := True\<rparr>"
        "always (Inr running_reply)"
        "[Iscomplete, Failed, Wait None 5, Errors, Fatal_error, Wait (Some 10) 5]"]
  by (simp add: init_def)

text \<open>
  Claim C10. One call of \<^verbatim>\<open>iscomplete\<close>, \<^verbatim>\<open>failed\<close>, \<^verbatim>\<open>fatal_error\<close> or
  \<^verbatim>\<open>errors\<close> sends exactly one request when the handle is incomplete at the call and
  none when it is complete. Consequently a call of \<^verbatim>\<open>wait\<close> on an incomplete handle that
  returns after \<open>n\<close> sleeps has gone through \<open>n + 1\<close> iterations and has sent exactly
  \<open>n + 1\<close> requests, one per iteration.
\<close>

theorem accessor_asks_api_at_most_once:
  "api_log (snd (iscomplete api w)) =
     api_log w @ (if self_is_complete w then [] else [self_job_id w]) \<and>
   api_log (snd (failed api w)) =
     api_log w @ (if self_is_complete w then [] else [self_job_id w]) \<and>
   api_log (snd (fatal_error api w)) =
     api_log w @ (if self_is_complete w then [] else [self_job_id w]) \<and>
   api_log (snd (errors api w)) =
     api_log w @ (if self_is_complete w then [] else [self_job_id w]) \<and>
   (\<not> self_is_complete w \<and> wait api timeout poll w = Some (r, w') \<longrightarrow>
      (\<exists>n. api_log w' = api_log w @ replicate (Suc n) (self_job_id w) \<and>
           sleep_log w' = sleep_log w @ replicate n poll))"
  using refresh_state_frame [of api w] wait_trace [of api timeout poll w "(r, w')"]
  by (simp add: accessor_state)

lemma wait_running_example:
  "wait (always (Inr running_reply)) (Some 10) 5 (init ''job1'' [] []) =
     Some (Inr False, init ''job1'' [''job1'', ''job1'', ''job1''] [5, 5])"
  by (simp add: wait.simps iscomplete_def refresh_state_def jobs_get_def read_response_def
      state_is_done_def sleep_def always_def running_reply_def init_def)

theorem accessor_asks_api_at_most_once_witness:
  "api_log (snd (iscomplete (always (Inr running_reply)) (init ''job1'' [] []))) = [''job1''] \<and>
   api_log (snd (failed (always (Inr running_reply)) (init ''job1'' [] []))) = [''job1''] \<and>
   \<not> self_is_complete (init ''job1'' [] []) \<and>
   wait (always (Inr running_reply)) (Some 10) 5 (init ''job1'' [] []) =
     Some (Inr False, init ''job1'' [''job1'', ''job1'', ''job1''] [5, 5]) \<and>
   (\<exists>n. [''job1'', ''job1'', ''job1''] = replicate (Suc n) ''job1'' \<and>
        [5, 5] = replicate n (5::int))"
  using accessor_asks_api_at_most_once
    [of "always (Inr running_reply)" "init ''job1'' [] []" "Some 10" 5
        "Inr False" "init ''job1'' [''job1'', ''job1'', ''job1''] [5, 5]"]
    wait_running_example
  by (simp add: init_def)

subsection \<open>Replies that are not terminal\<close>

lemma read_response_non_terminal:
  "non_terminal response \<Longrightarrow> read_response response w = (Inr (), w)"
  by (cases response)
    (auto simp: read_response_def state_is_done_def split: option.splits pyval.splits)

lemma refresh_state_non_terminal:
  assumes "\<not> self_is_complete w"
    and "api (api_log w) (self_job_id w) = Inr response"
    and "non_terminal response"
  shows "refresh_state api w = (Inr (), w\<lparr>api_log := api_log w @ [self_job_id w]\<rparr>)"
  using assms by (simp add: refresh_state_incomplete read_response_non_terminal)

text \<open>
  Claim C9. A refresh of an incomplete handle whose reply has no \<^verbatim>\<open>status\<close>, or a
  \<^verbatim>\<open>status\<close> without \<^verbatim>\<open>state\<close>, or a \<^verbatim>\<open>state\<close> other than \<^verbatim>\<open>'DONE'\<close>, returns
  normally and changes no field of the handle (only the request is recorded); the call
  of \<^verbatim>\<open>iscomplete\<close> that triggers it returns \<^verbatim>\<open>False\<close> and the call of \<^verbatim>\<open>failed\<close>
  returns \<^verbatim>\<open>False\<close>.
\<close>

theorem non_terminal_reply_changes_nothing:
  assumes "\<not> self_is_complete w"
    and "api (api_log w) (self_job_id w) = Inr response"
    and "non_terminal response"
  shows "refresh_state api w = (Inr (), w\<lparr>api_log := api_log w @ [self_job_id w]\<rparr>) \<and>
         iscomplete api w = (Inr False, w\<lparr>api_log := api_log w @ [self_job_id w]\<rparr>) \<and>
         failed api w = (Inr (RBool False), w\<lparr>api_log := api_log w @ [self_job_id w]\<rparr>)"
  using assms refresh_state_non_terminal [of w api response]
  by (simp add: iscomplete_def failed_def)

theorem non_terminal_reply_changes_nothing_witness:
  "\<not> self_is_complete (init ''job1'' [] []) \<and>
   non_terminal running_reply \<and> non_terminal (PDict []) \<and>
   non_terminal (PDict [(''status'', PDict [])]) \<and>
   refresh_state (always (Inr running_reply)) (init ''job1'' [] []) =
     (Inr (), init ''job1'' [''job1''] []) \<and>
   iscomplete (always (Inr (PDict []))) (init ''job1'' [] []) =
     (Inr False, init ''job1'' [''job1''] []) \<and>
   failed (always (Inr (PDict [(''status'', PDict [])]))) (init ''job1'' [] []) =
     (Inr (RBool False), init ''job1'' [''job1''] [])"
  using non_terminal_reply_changes_nothing
      [of "init ''job1'' [] []" "always (Inr running_reply)" running_reply]
    non_terminal_reply_changes_nothing
      [of "init ''job1'' [] []" "always (Inr (PDict []))" "PDict []"]
    non_terminal_reply_changes_nothing
      [of "init ''job1'' [] []" "always (Inr (PDict [(''status'', PDict [])]))"
          "PDict [(''status'', PDict [])]"]
  by (simp add: init_def always_def running_reply_def)

subsection \<open>The value of \<^verbatim>\<open>failed\<close>\<close>

lemma failed_truthy:
  assumes "failed api w = (Inr r, w')"
  shows "truthy r = (self_is_complete w' \<and> self_fatal_error w' \<noteq> None)"
  using assms
  by (auto simp: failed_def split: prod.splits sum.splits option.splits if_splits)

text \<open>
  Claim C3, evaluated on the code. The docstring of \<^verbatim>\<open>failed\<close> promises \<^verbatim>\<open>True\<close> or
  \<^verbatim>\<open>False\<close>. On a job that completed without a fatal error the call returns
  \<^verbatim>\<open>None\<close>, and on a job that completed with one it returns the stored tuple: the
  right operand of \<^verbatim>\<open>and\<close>, not a boolean.
\<close>

theorem failed_returns_operand_not_bool:
  "fst (failed (always (Inr (done_reply []))) (init ''job1'' [] [])) = Inr RNone \<and>
   fst (failed (always (Inr (done_reply []))) (init ''job1'' [] [])) \<noteq> Inr (RBool False) \<and>
   fst (failed (always (Inr (done_reply [(''errorResult'', PDict [(''message'', PStr ''boom'')])])))
          (init ''job1'' [] [])) =
     Inr (RJobError \<lparr>location = PNone, message = PStr ''boom'', reason = PNone\<rparr>) \<and>
   fst (failed (always (Inr (done_reply [(''errorResult'', PDict [(''message'', PStr ''boom'')])])))
          (init ''job1'' [] [])) \<noteq> Inr (RBool True)"
  by (simp add: failed_def refresh_state_def jobs_get_def read_response_def state_is_done_def
      read_done_def read_error_result_def read_errors_def job_error_of_def
      always_def done_reply_def init_def)

text \<open>
  Claim C4 as stated fails: a terminal reply whose \<^verbatim>\<open>errors\<close> is the empty list leaves
  the empty list in \<^verbatim>\<open>self._errors\<close>, and \<^verbatim>\<open>errors\<close> returns it, not \<^verbatim>\<open>None\<close>.
\<close>

theorem empty_errors_list_counterexample:
  "self_errors (snd (refresh_state (always (Inr (done_reply [(''errors'', PList [])])))
       (init ''job1'' [] []))) \<noteq> None \<and>
   errors (always (Inr (done_reply [(''errors'', PList [])]))) (init ''job1'' [] []) =
     (Inr (Some []), (init ''job1'' [''job1''] [])\<lparr>self_is_complete := True, self_errors := Some []\<rparr>)"
  by (simp add: errors_def refresh_state_def jobs_get_def read_response_def state_is_done_def
      read_done_def read_error_result_def read_errors_def job_error_of_def
      always_def done_reply_def init_def)

subsection \<open>The terminal reply\<close>

lemma job_error_of_dict:
  "job_error_of (PDict d) = Inr (spec_error_detail d)"
  by (simp add: job_error_of_def spec_error_detail_def field_or_none_def)

lemma append_errors_dicts:
  "append_errors (map PDict ds) w =
     (Inr (), w\<lparr>self_errors := map_option (\<lambda>es. es @ map spec_error_detail ds) (self_errors w)\<rparr>)"
proof (induction ds arbitrary: w)
  case Nil
  then show ?case by (simp add: option.map_ident)
next
  case (Cons d ds)
  then show ?case by (simp add: job_error_of_dict option.map_comp comp_def)
qed

lemma read_error_result_absent:
  "map_of s ''errorResult'' = None \<Longrightarrow> read_error_result (PDict s) w = (Inr (), w)"
  by (simp add: read_error_result_def)

lemma read_error_result_dict:
  "map_of s ''errorResult'' = Some (PDict er) \<Longrightarrow>
   read_error_result (PDict s) w = (Inr (), w\<lparr>self_fatal_error := Some (spec_error_detail er)\<rparr>)"
  by (simp add: read_error_result_def job_error_of_dict)

lemma read_errors_absent:
  "map_of s ''errors'' = None \<Longrightarrow> read_errors (PDict s) w = (Inr (), w)"
  by (simp add: read_errors_def)

lemma read_errors_dicts:
  "map_of s ''errors'' = Some (PList (map PDict ds)) \<Longrightarrow>
   read_errors (PDict s) w = (Inr (), w\<lparr>self_errors := Some (map spec_error_detail ds)\<rparr>)"
  by (simp add: read_errors_def append_errors_dicts)

lemma refresh_state_done:
  assumes "\<not> self_is_complete w"
    and "api (api_log w) (self_job_id w) = Inr (PDict r)"
    and "map_of r ''status'' = Some (PDict s)"
    and "map_of s ''state'' = Some (PStr ''DONE'')"
  shows "refresh_state api w = read_done (PDict s) (w\<lparr>api_log := api_log w @ [self_job_id w]\<rparr>)"
  using assms by (simp add: refresh_state_incomplete read_response_def state_is_done_def)

text \<open>
  Claim C4, amended. In the refresh that completes a handle whose \<^verbatim>\<open>self._errors\<close> is
  unset (as it is on every handle that has not completed), a reply without
  \<^verbatim>\<open>errors\<close> leaves it unset, and \<^verbatim>\<open>errors\<close> returns \<^verbatim>\<open>None\<close>; a reply whose \<^verbatim>\<open>errors\<close> is the empty
  list stores the empty list, and \<^verbatim>\<open>errors\<close> returns the empty list. The results of the
  accessor are stated for a reply whose \<^verbatim>\<open>errorResult\<close> is absent or a dictionary, so
  that reading it raises nothing.
\<close>

theorem errors_absent_or_empty:
  assumes "\<not> self_is_complete w"
    and "api (api_log w) (self_job_id w) = Inr (PDict r)"
    and "map_of r ''status'' = Some (PDict s)"
    and "map_of s ''state'' = Some (PStr ''DONE'')"
    and "self_errors w = None"
  shows "(map_of s ''errors'' = None \<longrightarrow>
            self_errors (snd (refresh_state api w)) = None) \<and>
         (map_of s ''errors'' = None \<and>
          (map_of s ''errorResult'' = None \<or> (\<exists>er. map_of s ''errorResult'' = Some (PDict er))) \<longrightarrow>
            fst (errors api w) = Inr None) \<and>
         (map_of s ''errors'' = Some (PList []) \<and>
          (map_of s ''errorResult'' = None \<or> (\<exists>er. map_of s ''errorResult'' = Some (PDict er))) \<longrightarrow>
            self_errors (snd (refresh_state api w)) = Some [] \<and>
            fst (errors api w) = Inr (Some []))"
proof -
  let ?w1 = "w\<lparr>api_log := api_log w @ [self_job_id w]\<rparr>"
  have rs: "refresh_state api w = read_done (PDict s) ?w1"
    using assms(1-4) by (rule refresh_state_done)
  have a: "self_errors (snd (refresh_state api w)) = self_errors w"
    if "map_of s ''errors'' = None"
  proof -
    obtain r1 w2 where e: "read_error_result (PDict s) (?w1\<lparr>self_is_complete := True\<rparr>) = (r1, w2)"
      by (cases "read_error_result (PDict s) (?w1\<lparr>self_is_complete := True\<rparr>)")
    with read_error_result_frame [of "PDict s" "?w1\<lparr>self_is_complete := True\<rparr>"]
    have "self_errors w2 = self_errors w" by simp
    with e that show ?thesis
      by (cases r1) (simp_all add: rs read_done_def read_errors_absent)
  qed
  have b: "fst (errors api w) = Inr (self_errors w)"
    if "map_of s ''errors'' = None"
      and "map_of s ''errorResult'' = None \<or> (\<exists>er. map_of s ''errorResult'' = Some (PDict er))"
    using that
    by (auto simp: errors_def rs read_done_def read_errors_absent read_error_result_absent
        read_error_result_dict)
  have c: "self_errors (snd (refresh_state api w)) = Some [] \<and> fst (errors api w) = Inr (Some [])"
    if "map_of s ''errors'' = Some (PList [])"
      and "map_of s ''errorResult'' = None \<or> (\<exists>er. map_of s ''errorResult'' = Some (PDict er))"
    using that read_errors_dicts [of s "[]"]
    by (auto simp: errors_def rs read_done_def read_error_result_absent read_error_result_dict)
  from a b c assms(5) show ?thesis by simp
qed

theorem errors_absent_or_empty_witness:
  "\<not> self_is_complete (init ''job1'' [] []) \<and>
   self_errors (snd (refresh_state (always (Inr (done_reply []))) (init ''job1'' [] []))) = None \<and>
   fst (errors (always (Inr (done_reply []))) (init ''job1'' [] [])) = Inr None \<and>
   self_errors (snd (refresh_state (always (Inr (done_reply [(''errors'', PList [])])))
       (init ''job1'' [] []))) = Some [] \<and>
   fst (errors (always (Inr (done_reply [(''errors'', PList [])]))) (init ''job1'' [] [])) =
     Inr (Some [])"
  using errors_absent_or_empty
      [of "init ''job1'' [] []" "always (Inr (done_reply []))"
          "[(''status'', PDict [(''state'', PStr ''DONE'')])]" "[(''state'', PStr ''DONE'')]"]
    errors_absent_or_empty
      [of "init ''job1'' [] []" "always (Inr (done_reply [(''errors'', PList [])]))"
          "[(''status'', PDict [(''state'', PStr ''DONE''), (''errors'', PList [])])]"
          "[(''state'', PStr ''DONE''), (''errors'', PList [])]"]
  by (simp add: init_def always_def done_reply_def)

subsection \<open>The arithmetic of \<^verbatim>\<open>wait\<close>\<close>

lemma iscomplete_non_terminal:
  assumes "\<not> self_is_complete w"
    and "api (api_log w) (self_job_id w) = Inr response"
    and "non_terminal response"
  shows "iscomplete api w = (Inr False, w\<lparr>api_log := api_log w @ [self_job_id w]\<rparr>)"
  using assms refresh_state_non_terminal [of w api response]
  by (simp add: iscomplete_def)

lemma wait_timed_out:
  assumes "iscomplete api w = (Inr False, w1)" and "t \<le> 0"
  shows "wait api (Some t) poll w = Some (Inr False, w1)"
  using assms by (subst wait.simps) simp

lemma wait_sleeps:
  assumes "iscomplete api w = (Inr False, w1)" and "0 < t" and "0 \<le> poll"
  shows "wait api (Some t) poll w =
           wait api (Some (t - poll)) poll (w1\<lparr>sleep_log := sleep_log w1 @ [poll]\<rparr>)"
  using assms by (subst wait.simps) (simp add: sleep_def)

text \<open>
  Claim C5. Against a job whose every reply is non-terminal, \<^verbatim>\<open>wait(timeout=10, poll=5)\<close>
  returns \<^verbatim>\<open>False\<close> after exactly two sleeps of 5 and three requests: the budget goes
  10, 5, 0 and the third iteration leaves before sleeping. In general an iteration that
  finds the job incomplete returns \<^verbatim>\<open>False\<close> without sleeping when the budget is at most
  0, and otherwise sleeps for \<open>poll\<close> and goes round again with the budget lowered by
  \<open>poll\<close>.
\<close>

theorem wait_timeout_arithmetic:
  assumes "\<not> self_is_complete w"
  shows "((\<forall>requests. \<exists>response.
             api requests (self_job_id w) = Inr response \<and> non_terminal response) \<longrightarrow>
          wait api (Some 10) 5 w =
            Some (Inr False,
                  w\<lparr>api_log := api_log w @ [self_job_id w, self_job_id w, self_job_id w],
                    sleep_log := sleep_log w @ [5, 5]\<rparr>)) \<and>
         (iscomplete api w = (Inr False, w1) \<and> t \<le> 0 \<longrightarrow>
            wait api (Some t) poll w = Some (Inr False, w1) \<and> sleep_log w1 = sleep_log w) \<and>
         (iscomplete api w = (Inr False, w1) \<and> 0 < t \<and> 0 \<le> poll \<longrightarrow>
            wait api (Some t) poll w =
              wait api (Some (t - poll)) poll (w1\<lparr>sleep_log := sleep_log w @ [poll]\<rparr>))"
proof (intro conjI impI)
  assume never: "\<forall>requests. \<exists>response.
      api requests (self_job_id w) = Inr response \<and> non_terminal response"
  have poll: "iscomplete api v = (Inr False, v\<lparr>api_log := api_log v @ [self_job_id v]\<rparr>)"
    if "\<not> self_is_complete v" and "self_job_id v = self_job_id w" for v
  proof -
    from never that(2) obtain response where
      "api (api_log v) (self_job_id v) = Inr response" "non_terminal response"
      by metis
    with that(1) show ?thesis by (rule iscomplete_non_terminal)
  qed
  let ?j = "self_job_id w"
  let ?w1 = "w\<lparr>api_log := api_log w @ [?j]\<rparr>"
  let ?w2 = "?w1\<lparr>sleep_log := sleep_log ?w1 @ [5]\<rparr>"
  let ?w3 = "?w2\<lparr>api_log := api_log ?w2 @ [self_job_id ?w2]\<rparr>"
  let ?w4 = "?w3\<lparr>sleep_log := sleep_log ?w3 @ [5]\<rparr>"
  let ?w5 = "?w4\<lparr>api_log := api_log ?w4 @ [self_job_id ?w4]\<rparr>"
  have "wait api (Some 10) 5 w = wait api (Some (10 - 5)) 5 ?w2"
    using assms by (intro wait_sleeps poll) simp_all
  also have "\<dots> = wait api (Some (10 - 5 - 5)) 5 ?w4"
    using assms by (intro wait_sleeps poll) simp_all
  also have "\<dots> = Some (Inr False, ?w5)"
    using assms by (intro wait_timed_out poll) simp_all
  finally show "wait api (Some 10) 5 w =
      Some (Inr False, w\<lparr>api_log := api_log w @ [?j, ?j, ?j], sleep_log := sleep_log w @ [5, 5]\<rparr>)"
    by simp
next
  assume "iscomplete api w = (Inr False, w1) \<and> t \<le> 0"
  then show "wait api (Some t) poll w = Some (Inr False, w1)"
    by (simp add: wait_timed_out)
next
  assume "iscomplete api w = (Inr False, w1) \<and> t \<le> 0"
  then show "sleep_log w1 = sleep_log w"
    using iscomplete_False [of api w w1] by (cases w) auto
next
  assume a: "iscomplete api w = (Inr False, w1) \<and> 0 < t \<and> 0 \<le> poll"
  then have "sleep_log w1 = sleep_log w"
    using iscomplete_False [of api w w1] by (cases w) auto
  with a wait_sleeps [of api w w1 t poll]
  show "wait api (Some t) poll w =
      wait api (Some (t - poll)) poll (w1\<lparr>sleep_log := sleep_log w @ [poll]\<rparr>)"
    by simp
qed

theorem wait_timeout_arithmetic_witness:
  "\<not> self_is_complete (init ''job1'' [] []) \<and>
   (\<forall>requests. \<exists>response.
       always (Inr running_reply) requests ''job1'' = Inr response \<and> non_terminal response) \<and>
   wait (always (Inr running_reply)) (Some 10) 5 (init ''job1'' [] []) =
     Some (Inr False, init ''job1'' [''job1'', ''job1'', ''job1''] [5, 5]) \<and>
   iscomplete (always (Inr running_reply)) (init ''job1'' [] []) =
     (Inr False, init ''job1'' [''job1''] []) \<and>
   wait (always (Inr running_reply)) (Some 0) 5 (init ''job1'' [] []) =
     Some (Inr False, init ''job1'' [''job1''] []) \<and>
   wait (always (Inr running_reply)) (Some 10) 5 (init ''job1'' [] []) =
     wait (always (Inr running_reply)) (Some 5) 5 (init ''job1'' [''job1''] [5])"
proof -
  have ic: "iscomplete (always (Inr running_reply)) (init ''job1'' [] []) =
     (Inr False, init ''job1'' [''job1''] [])"
    by (simp add: iscomplete_def refresh_state_def jobs_get_def read_response_def
        state_is_done_def always_def running_reply_def init_def)
  have nt: "\<forall>requests. \<exists>response.
       always (Inr running_reply) requests ''job1'' = Inr response \<and> non_terminal response"
    by (simp add: always_def running_reply_def)
  show ?thesis
    using ic nt
      wait_timeout_arithmetic [of "init ''job1'' [] []" "always (Inr running_reply)"
        "init ''job1'' [''job1''] []" 0 5]
      wait_timeout_arithmetic [of "init ''job1'' [] []" "always (Inr running_reply)"
        "init ''job1'' [''job1''] []" 10 5]
    by (simp add: init_def)
qed

subsection \<open>Parsing of fatal and partial errors\<close>

lemma read_done_dicts:
  assumes "map_of s ''errorResult'' = Some (PDict er)"
    and "map_of s ''errors'' = Some (PList (map PDict ds))"
  shows "read_done (PDict s) w =
           (Inr (), w\<lparr>self_is_complete := True, self_fatal_error := Some (spec_error_detail er),
                      self_errors := Some (map spec_error_detail ds)\<rparr>)"
  using assms by (simp add: read_done_def read_error_result_dict read_errors_dicts)

lemma read_done_fatal_only:
  assumes "map_of s ''errorResult'' = Some (PDict er)"
    and "map_of s ''errors'' = None"
  shows "read_done (PDict s) w =
           (Inr (), w\<lparr>self_is_complete := True, self_fatal_error := Some (spec_error_detail er)\<rparr>)"
  using assms by (simp add: read_done_def read_error_result_dict read_errors_absent)

lemma read_done_errors_only:
  assumes "map_of s ''errorResult'' = None"
    and "map_of s ''errors'' = Some (PList (map PDict ds))"
  shows "read_done (PDict s) w =
           (Inr (), w\<lparr>self_is_complete := True, self_errors := Some (map spec_error_detail ds)\<rparr>)"
  using assms by (simp add: read_done_def read_error_result_absent read_errors_dicts)

text \<open>
  The fatal error in general. When the refresh of an incomplete handle reads a reply
  with state \<^verbatim>\<open>'DONE'\<close> and an \<^verbatim>\<open>errorResult\<close> dictionary, it raises nothing, the
  handle is complete, and \<^verbatim>\<open>self._fatal_error\<close> is the tuple whose three fields are,
  each on its own, the value under that key or \<^verbatim>\<open>None\<close> when the key is missing.
  \<^verbatim>\<open>fatal_error\<close> returns that tuple, and so does \<^verbatim>\<open>failed\<close>.
\<close>

lemma fatal_error_parsed:
  assumes "\<not> self_is_complete w"
    and "api (api_log w) (self_job_id w) = Inr (PDict r)"
    and "map_of r ''status'' = Some (PDict s)"
    and "map_of s ''state'' = Some (PStr ''DONE'')"
    and "map_of s ''errorResult'' = Some (PDict er)"
    and "map_of s ''errors'' = None \<or> (\<exists>ds. map_of s ''errors'' = Some (PList (map PDict ds)))"
  shows "\<exists>w'. refresh_state api w = (Inr (), w') \<and>
              self_is_complete w' \<and>
              self_fatal_error w' =
                Some \<lparr>location = (case map_of er ''location'' of None \<Rightarrow> PNone | Some v \<Rightarrow> v),
                      message = (case map_of er ''message'' of None \<Rightarrow> PNone | Some v \<Rightarrow> v),
                      reason = (case map_of er ''reason'' of None \<Rightarrow> PNone | Some v \<Rightarrow> v)\<rparr> \<and>
              fatal_error api w = (Inr (self_fatal_error w'), w') \<and>
              failed api w =
                (Inr (RJobError
                   \<lparr>location = (case map_of er ''location'' of None \<Rightarrow> PNone | Some v \<Rightarrow> v),
                    message = (case map_of er ''message'' of None \<Rightarrow> PNone | Some v \<Rightarrow> v),
                    reason = (case map_of er ''reason'' of None \<Rightarrow> PNone | Some v \<Rightarrow> v)\<rparr>), w')"
proof -
  let ?w1 = "w\<lparr>api_log := api_log w @ [self_job_id w]\<rparr>"
  have rs: "refresh_state api w = read_done (PDict s) ?w1"
    using assms(1-4) by (rule refresh_state_done)
  from assms(6) obtain w' where
    w': "read_done (PDict s) ?w1 = (Inr (), w')" "self_is_complete w'"
      "self_fatal_error w' = Some (spec_error_detail er)"
    using read_done_fatal_only [OF assms(5), of ?w1] read_done_dicts [OF assms(5), of _ ?w1]
    by auto
  show ?thesis
  proof (intro exI [of _ w'] conjI)
    show "refresh_state api w = (Inr (), w')" using rs w' by simp
    show "self_is_complete w'" by fact
    show "self_fatal_error w' =
        Some \<lparr>location = (case map_of er ''location'' of None \<Rightarrow> PNone | Some v \<Rightarrow> v),
              message = (case map_of er ''message'' of None \<Rightarrow> PNone | Some v \<Rightarrow> v),
              reason = (case map_of er ''reason'' of None \<Rightarrow> PNone | Some v \<Rightarrow> v)\<rparr>"
      using w' by (simp add: spec_error_detail_def field_or_none_def)
    show "fatal_error api w = (Inr (self_fatal_error w'), w')"
      using rs w' by (simp add: fatal_error_def)
    show "failed api w =
        (Inr (RJobError
           \<lparr>location = (case map_of er ''location'' of None \<Rightarrow> PNone | Some v \<Rightarrow> v),
            message = (case map_of er ''message'' of None \<Rightarrow> PNone | Some v \<Rightarrow> v),
            reason = (case map_of er ''reason'' of None \<Rightarrow> PNone | Some v \<Rightarrow> v)\<rparr>), w')"
      using rs w' by (simp add: failed_def spec_error_detail_def field_or_none_def)
  qed
qed

text \<open>
  Claim C7, evaluated on the code. After a reply with state \<^verbatim>\<open>'DONE'\<close> and
  \<^verbatim>\<open>errorResult = {message: 'boom'}\<close> the parsing is as claimed: \<^verbatim>\<open>fatal_error\<close> returns
  the tuple with message \<^verbatim>\<open>'boom'\<close> and with location and reason unset. But \<^verbatim>\<open>failed\<close>
  does not return \<^verbatim>\<open>True\<close>: it returns that same tuple, the right operand of \<^verbatim>\<open>and\<close>
  (the defect of claim C3).
\<close>

theorem boom_failed_is_not_True:
  "fst (fatal_error (always (Inr (done_reply [(''errorResult'', PDict [(''message'', PStr ''boom'')])])))
          (init ''job1'' [] [])) =
     Inr (Some \<lparr>location = PNone, message = PStr ''boom'', reason = PNone\<rparr>) \<and>
   fst (failed (always (Inr (done_reply [(''errorResult'', PDict [(''message'', PStr ''boom'')])])))
          (init ''job1'' [] [])) =
     Inr (RJobError \<lparr>location = PNone, message = PStr ''boom'', reason = PNone\<rparr>) \<and>
   fst (failed (always (Inr (done_reply [(''errorResult'', PDict [(''message'', PStr ''boom'')])])))
          (init ''job1'' [] [])) \<noteq> Inr (RBool True)"
  using fatal_error_parsed
      [of "init ''job1'' [] []"
          "always (Inr (done_reply [(''errorResult'', PDict [(''message'', PStr ''boom'')])]))"
          "[(''status'', PDict [(''state'', PStr ''DONE''),
              (''errorResult'', PDict [(''message'', PStr ''boom'')])])]"
          "[(''state'', PStr ''DONE''), (''errorResult'', PDict [(''message'', PStr ''boom'')])]"
          "[(''message'', PStr ''boom'')]"]
  by (auto simp: init_def always_def done_reply_def)

text \<open>
  The partial errors in general. When the refresh of an incomplete handle reads a reply
  with state \<^verbatim>\<open>'DONE'\<close> and a list of dictionaries under \<^verbatim>\<open>errors\<close>, it raises nothing
  and \<^verbatim>\<open>self._errors\<close> is the list of the tuples of these dictionaries, in the order of
  the reply and of the same length, each built by the rule of the fatal error. Without
  an \<^verbatim>\<open>errorResult\<close>, \<^verbatim>\<open>fatal_error\<close> returns \<^verbatim>\<open>None\<close>, and so does \<^verbatim>\<open>failed\<close>.
\<close>

lemma partial_errors_parsed:
  assumes "\<not> self_is_complete w"
    and "api (api_log w) (self_job_id w) = Inr (PDict r)"
    and "map_of r ''status'' = Some (PDict s)"
    and "map_of s ''state'' = Some (PStr ''DONE'')"
    and "map_of s ''errors'' = Some (PList (map PDict ds))"
    and "map_of s ''errorResult'' = None \<or> (\<exists>er. map_of s ''errorResult'' = Some (PDict er))"
  shows "\<exists>w'. refresh_state api w = (Inr (), w') \<and>
              self_is_complete w' \<and>
              self_errors w' =
                Some (map (\<lambda>d.
                  \<lparr>location = (case map_of d ''location'' of None \<Rightarrow> PNone | Some v \<Rightarrow> v),
                   message = (case map_of d ''message'' of None \<Rightarrow> PNone | Some v \<Rightarrow> v),
                   reason = (case map_of d ''reason'' of None \<Rightarrow> PNone | Some v \<Rightarrow> v)\<rparr>) ds) \<and>
              errors api w = (Inr (self_errors w'), w') \<and>
              (map_of s ''errorResult'' = None \<and> self_fatal_error w = None \<longrightarrow>
                 fatal_error api w = (Inr None, w') \<and>
                 failed api w = (Inr RNone, w'))"
proof -
  let ?w1 = "w\<lparr>api_log := api_log w @ [self_job_id w]\<rparr>"
  have rs: "refresh_state api w = read_done (PDict s) ?w1"
    using assms(1-4) by (rule refresh_state_done)
  have sd: "spec_error_detail = (\<lambda>d.
                  \<lparr>location = (case map_of d ''location'' of None \<Rightarrow> PNone | Some v \<Rightarrow> v),
                   message = (case map_of d ''message'' of None \<Rightarrow> PNone | Some v \<Rightarrow> v),
                   reason = (case map_of d ''reason'' of None \<Rightarrow> PNone | Some v \<Rightarrow> v)\<rparr>)"
    by (rule ext) (simp add: spec_error_detail_def field_or_none_def)
  from assms(6) show ?thesis
  proof
    assume absent: "map_of s ''errorResult'' = None"
    show ?thesis
      using rs read_done_errors_only [OF absent assms(5), of ?w1]
      by (simp add: sd errors_def fatal_error_def failed_def)
  next
    assume "\<exists>er. map_of s ''errorResult'' = Some (PDict er)"
    then obtain er where er: "map_of s ''errorResult'' = Some (PDict er)" ..
    show ?thesis
      using rs read_done_dicts [OF er assms(5), of ?w1] er
      by (simp add: sd errors_def)
  qed
qed

text \<open>
  Claim C8, evaluated on the code. After a reply with state \<^verbatim>\<open>'DONE'\<close>,
  \<^verbatim>\<open>errors = [{reason: 'a'}, {reason: 'b'}]\<close> and no \<^verbatim>\<open>errorResult\<close> the parsing is as
  claimed: \<^verbatim>\<open>errors\<close> returns the two tuples in the order of the reply and
  \<^verbatim>\<open>fatal_error\<close> returns \<^verbatim>\<open>None\<close>. But \<^verbatim>\<open>failed\<close> does not return \<^verbatim>\<open>False\<close>: it
  returns \<^verbatim>\<open>None\<close>, the right operand of \<^verbatim>\<open>and\<close> (the defect of claim C3).
\<close>

theorem partial_errors_failed_is_not_False:
  "fst (errors (always (Inr (done_reply
              [(''errors'', PList [PDict [(''reason'', PStr ''a'')], PDict [(''reason'', PStr ''b'')]])])))
          (init ''job1'' [] [])) =
     Inr (Some [\<lparr>location = PNone, message = PNone, reason = PStr ''a''\<rparr>,
                \<lparr>location = PNone, message = PNone, reason = PStr ''b''\<rparr>]) \<and>
   fst (fatal_error (always (Inr (done_reply
              [(''errors'', PList [PDict [(''reason'', PStr ''a'')], PDict [(''reason'', PStr ''b'')]])])))
          (init ''job1'' [] [])) = Inr None \<and>
   fst (failed (always (Inr (done_reply
              [(''errors'', PList [PDict [(''reason'', PStr ''a'')], PDict [(''reason'', PStr ''b'')]])])))
          (init ''job1'' [] [])) = Inr RNone \<and>
   fst (failed (always (Inr (done_reply
              [(''errors'', PList [PDict [(''reason'', PStr ''a'')], PDict [(''reason'', PStr ''b'')]])])))
          (init ''job1'' [] [])) \<noteq> Inr (RBool False)"
  using partial_errors_parsed
      [of "init ''job1'' [] []"
          "always (Inr (done_reply
              [(''errors'', PList [PDict [(''reason'', PStr ''a'')], PDict [(''reason'', PStr ''b'')]])]))"
          "[(''status'', PDict [(''state'', PStr ''DONE''),
              (''errors'', PList [PDict [(''reason'', PStr ''a'')], PDict [(''reason'', PStr ''b'')]])])]"
          "[(''state'', PStr ''DONE''),
              (''errors'', PList [PDict [(''reason'', PStr ''a'')], PDict [(''reason'', PStr ''b'')]])]"
          "[[(''reason'', PStr ''a'')], [(''reason'', PStr ''b'')]]"]
  by (auto simp: init_def always_def done_reply_def)

subsection \<open>Sequences of refreshes\<close>

lemma refreshes_complete:
  "self_is_complete w \<Longrightarrow> refreshes api n w = w"
  by (induction n) (simp_all add: refresh_state_complete)

lemma refreshes_add:
  "refreshes api (n + m) w = refreshes api m (refreshes api n w)"
  by (induction n arbitrary: w) simp_all

lemma refreshes_still_incomplete:
  "\<not> self_is_complete (refreshes api n w) \<Longrightarrow>
   \<not> self_is_complete w \<and>
   self_fatal_error (refreshes api n w) = self_fatal_error w \<and>
   self_errors (refreshes api n w) = self_errors w"
proof (induction n arbitrary: w)
  case 0
  then show ?case by simp
next
  case (Suc n)
  let ?w1 = "snd (refresh_state api w)"
  from Suc.prems have "\<not> self_is_complete (refreshes api n ?w1)" by simp
  from Suc.IH [OF this] have
    inc: "\<not> self_is_complete ?w1"
    and eq: "self_fatal_error (refreshes api (Suc n) w) = self_fatal_error ?w1"
      "self_errors (refreshes api (Suc n) w) = self_errors ?w1"
    by simp_all
  from refresh_state_still_incomplete [OF inc]
  have "?w1 = w\<lparr>api_log := api_log w @ [self_job_id w]\<rparr>" .
  with inc eq show ?case by simp
qed

text \<open>
  Claim C2 (monotone state). Take any API object, whatever it answers or raises, any
  state \<open>w\<close> and the states after \<open>n\<close> and after \<open>n + m\<close> refreshes. If the handle is
  complete after \<open>n\<close> refreshes, it is complete after \<open>n + m\<close> and its fatal error and
  its errors are the same: the flag never reverts and the three fields are fixed from then
  on. If it is still incomplete after \<open>n\<close> refreshes, it was incomplete at the start and
  neither field has been assigned so far. And one refresh changes the fatal error or the
  errors only if it is the refresh that takes the flag from false to true; since that
  happens once at most, each of the two fields is assigned at most once.
\<close>

theorem state_monotone:
  "(self_is_complete (refreshes api n w) \<longrightarrow>
      self_is_complete (refreshes api (n + m) w) \<and>
      self_fatal_error (refreshes api (n + m) w) = self_fatal_error (refreshes api n w) \<and>
      self_errors (refreshes api (n + m) w) = self_errors (refreshes api n w)) \<and>
   (\<not> self_is_complete (refreshes api n w) \<longrightarrow>
      \<not> self_is_complete w \<and>
      self_fatal_error (refreshes api n w) = self_fatal_error w \<and>
      self_errors (refreshes api n w) = self_errors w) \<and>
   (self_fatal_error (snd (refresh_state api w)) \<noteq> self_fatal_error w \<or>
    self_errors (snd (refresh_state api w)) \<noteq> self_errors w \<longrightarrow>
      \<not> self_is_complete w \<and> self_is_complete (snd (refresh_state api w)))"
proof (intro conjI)
  show "self_is_complete (refreshes api n w) \<longrightarrow>
      self_is_complete (refreshes api (n + m) w) \<and>
      self_fatal_error (refreshes api (n + m) w) = self_fatal_error (refreshes api n w) \<and>
      self_errors (refreshes api (n + m) w) = self_errors (refreshes api n w)"
    by (simp add: refreshes_add refreshes_complete)
  show "\<not> self_is_complete (refreshes api n w) \<longrightarrow>
      \<not> self_is_complete w \<and>
      self_fatal_error (refreshes api n w) = self_fatal_error w \<and>
      self_errors (refreshes api n w) = self_errors w"
    using refreshes_still_incomplete [of api n w] by blast
  show "self_fatal_error (snd (refresh_state api w)) \<noteq> self_fatal_error w \<or>
    self_errors (snd (refresh_state api w)) \<noteq> self_errors w \<longrightarrow>
      \<not> self_is_complete w \<and> self_is_complete (snd (refresh_state api w))"
    using refresh_state_still_incomplete [of api w] refresh_state_complete [of w api]
    by (cases "self_is_complete (snd (refresh_state api w))") auto
qed

lemma refreshes_example:
  "refreshes (scripted [Inr running_reply, Inl (ApiError ''timeout''), Inr failing_reply]
       (Inr (done_reply []))) 2 (init ''job1'' [] []) = init ''job1'' [''job1'', ''job1''] []"
  "refreshes (scripted [Inr running_reply, Inl (ApiError ''timeout''), Inr failing_reply]
       (Inr (done_reply []))) 3 (init ''job1'' [] []) =
    (init ''job1'' [''job1'', ''job1'', ''job1''] [])
      \<lparr>self_is_complete := True,
       self_errors := Some [\<lparr>location = PNone, message = PNone, reason = PStr ''a''\<rparr>],
       self_fatal_error := Some \<lparr>location = PNone, message = PStr ''boom'', reason = PNone\<rparr>\<rparr>"
  by (simp_all add: numeral_2_eq_2 numeral_3_eq_3 refresh_state_def jobs_get_def
      read_response_def state_is_done_def read_done_def read_error_result_def read_errors_def
      job_error_of_def scripted_def running_reply_def failing_reply_def done_reply_def init_def)

theorem state_monotone_witness:
  "\<not> self_is_complete (refreshes (scripted [Inr running_reply, Inl (ApiError ''timeout''),
       Inr failing_reply] (Inr (done_reply []))) 2 (init ''job1'' [] [])) \<and>
   self_is_complete (refreshes (scripted [Inr running_reply, Inl (ApiError ''timeout''),
       Inr failing_reply] (Inr (done_reply []))) 3 (init ''job1'' [] [])) \<and>
   self_is_complete (refreshes (scripted [Inr running_reply, Inl (ApiError ''timeout''),
       Inr failing_reply] (Inr (done_reply []))) (3 + 4) (init ''job1'' [] [])) \<and>
   self_fatal_error (refreshes (scripted [Inr running_reply, Inl (ApiError ''timeout''),
       Inr failing_reply] (Inr (done_reply []))) (3 + 4) (init ''job1'' [] [])) =
     Some \<lparr>location = PNone, message = PStr ''boom'', reason = PNone\<rparr> \<and>
   self_errors (refreshes (scripted [Inr running_reply, Inl (ApiError ''timeout''),
       Inr failing_reply] (Inr (done_reply []))) (3 + 4) (init ''job1'' [] [])) =
     Some [\<lparr>location = PNone, message = PNone, reason = PStr ''a''\<rparr>]"
  using state_monotone
      [of "scripted [Inr running_reply, Inl (ApiError ''timeout''), Inr failing_reply]
             (Inr (done_reply []))" 3 "init ''job1'' [] []" 4]
    state_monotone
      [of "scripted [Inr running_reply, Inl (ApiError ''timeout''), Inr failing_reply]
             (Inr (done_reply []))" 2 "init ''job1'' [] []" 0]
    refreshes_example
  by (simp add: init_def)

subsection \<open>Exceptions of the API\<close>

lemma iscomplete_api_raises:
  assumes "\<not> self_is_complete w" and "api (api_log w) (self_job_id w) = Inl e"
  shows "iscomplete api w = (Inl e, w\<lparr>api_log := api_log w @ [self_job_id w]\<rparr>)"
  using assms by (simp add: iscomplete_def refresh_state_incomplete)

lemma iscomplete_api_replied:
  assumes "\<not> self_is_complete w" and "iscomplete api w = (Inr c, w1)"
  shows "\<exists>response. api (api_log w) (self_job_id w) = Inr response"
  using assms
  by (cases "api (api_log w) (self_job_id w)") (simp_all add: iscomplete_api_raises)

lemma wait_unfold:
  assumes "wait api timeout poll w = Some y" and "iscomplete api w = (r, w1)"
  shows "snd y = w1 \<and> (y = (r, w1) \<or> r = Inr False) \<or>
         r = Inr False \<and>
         (\<exists>t'. wait api t' poll (w1\<lparr>sleep_log := sleep_log w1 @ [poll]\<rparr>) = Some y)"
  using assms(1) unfolding wait.simps [of api timeout poll w] assms(2)
  by (auto simp: sleep_def split: sum.splits if_splits option.splits)

lemma wait_api_failure:
  assumes "wait api timeout poll w = Some y"
    and "\<not> self_is_complete w"
    and "api_log (snd y) = api_log w @ replicate (Suc n) (self_job_id w)"
    and "length (api_log w) \<le> k" and "k < length (api_log (snd y))"
    and "api (take k (api_log (snd y))) (self_job_id w) = Inl e"
  shows "fst y = Inl e \<and> Suc k = length (api_log (snd y)) \<and>
         snd y = w\<lparr>api_log := api_log (snd y), sleep_log := sleep_log (snd y)\<rparr>"
  using assms
proof (induction n arbitrary: w timeout)
  case 0
  obtain r w1 where ic: "iscomplete api w = (r, w1)" by (cases "iscomplete api w")
  from accessor_state(1) [of api w] ic refresh_state_frame [of api w] "0.prems"(2)
  have f1: "self_job_id w1 = self_job_id w" "sleep_log w1 = sleep_log w"
    "api_log w1 = api_log w @ [self_job_id w]"
    by auto
  from "0.prems"(3-5) have k: "k = length (api_log w)" by simp
  with "0.prems"(3,6) have fail: "api (api_log w) (self_job_id w) = Inl e" by simp
  with "0.prems"(2) ic have r: "r = Inl e" "w1 = w\<lparr>api_log := api_log w @ [self_job_id w]\<rparr>"
    by (simp_all add: iscomplete_api_raises)
  from wait_unfold [OF "0.prems"(1) ic] r have "y = (Inl e, w1)" by simp
  with r k show ?case by simp
next
  case (Suc n)
  obtain r w1 where ic: "iscomplete api w = (r, w1)" by (cases "iscomplete api w")
  from accessor_state(1) [of api w] ic refresh_state_frame [of api w] Suc.prems(2)
  have f1: "self_job_id w1 = self_job_id w" "sleep_log w1 = sleep_log w"
    "api_log w1 = api_log w @ [self_job_id w]"
    by auto
  let ?w2 = "w1\<lparr>sleep_log := sleep_log w1 @ [poll]\<rparr>"
  from wait_unfold [OF Suc.prems(1) ic] f1 Suc.prems(3)
  obtain t' where r: "r = Inr False" and rec: "wait api t' poll ?w2 = Some y"
    by auto
  from ic r have w1: "w1 = w\<lparr>api_log := api_log w @ [self_job_id w]\<rparr>"
    using iscomplete_False by blast
  with Suc.prems(2) have inc2: "\<not> self_is_complete ?w2" by simp
  from iscomplete_api_replied [OF Suc.prems(2)] ic r
  obtain response where rep: "api (api_log w) (self_job_id w) = Inr response" by blast
  have log2: "api_log (snd y) = api_log ?w2 @ replicate (Suc n) (self_job_id ?w2)"
    using Suc.prems(3) f1 by simp
  have "k \<noteq> length (api_log w)"
    using rep Suc.prems(3,6) by auto
  with Suc.prems(4) have k2: "length (api_log ?w2) \<le> k" using f1 by simp
  from Suc.IH [OF rec inc2 log2 k2 Suc.prems(5)] Suc.prems(6) f1
  have "fst y = Inl e \<and> Suc k = length (api_log (snd y)) \<and>
         snd y = ?w2\<lparr>api_log := api_log (snd y), sleep_log := sleep_log (snd y)\<rparr>"
    by simp
  with w1 show ?case by simp
qed

lemma wait_returns_when_api_raises:
  "api (api_log w @ replicate k (self_job_id w)) (self_job_id w) = Inl e \<Longrightarrow>
   \<exists>y. wait api timeout poll w = Some y"
proof (induction k arbitrary: w timeout)
  case 0
  show ?case
  proof (cases "self_is_complete w")
    case True
    then show ?thesis by (simp add: wait_complete)
  next
    case False
    with 0 show ?thesis
      by (simp add: wait.simps [of api timeout poll w] iscomplete_api_raises)
  qed
next
  case (Suc k)
  show ?case
  proof (cases "self_is_complete w")
    case True
    then show ?thesis by (simp add: wait_complete)
  next
    case False
    obtain r w1 where ic: "iscomplete api w = (r, w1)" by (cases "iscomplete api w")
    from accessor_state(1) [of api w] ic refresh_state_frame [of api w] False
    have f1: "self_job_id w1 = self_job_id w" "api_log w1 = api_log w @ [self_job_id w]"
      by auto
    let ?w2 = "w1\<lparr>sleep_log := sleep_log w1 @ [poll]\<rparr>"
    from Suc.prems f1
    have "api (api_log ?w2 @ replicate k (self_job_id ?w2)) (self_job_id ?w2) = Inl e"
      by (simp add: replicate_app_Cons_same)
    from Suc.IH [OF this] have "\<exists>y. wait api t' poll ?w2 = Some y" for t' .
    then show ?thesis
      unfolding wait.simps [of api timeout poll w] ic
      by (auto simp: sleep_def split: sum.splits option.splits)
  qed
qed

text \<open>
  Claim C6. On an incomplete handle, when \<^verbatim>\<open>jobs_get\<close> raises \<open>e\<close>, each of
  \<^verbatim>\<open>iscomplete\<close>, \<^verbatim>\<open>failed\<close>, \<^verbatim>\<open>fatal_error\<close>, \<^verbatim>\<open>errors\<close> and \<^verbatim>\<open>wait\<close> raises the
  same \<open>e\<close> after that single request, and the handle is as before the call. For
  \<^verbatim>\<open>wait\<close> the same holds at any iteration: a call of \<^verbatim>\<open>wait\<close> returns if the request
  of one of its iterations would raise; and if any request made during a call of
  \<^verbatim>\<open>wait\<close> is answered by an exception \<open>e\<close>, then that request is the last one of the
  call (no retry), the call raises \<open>e\<close>, and the state differs from the one before the
  call only in the two traces of requests and sleeps.
\<close>

theorem transport_error_propagates:
  assumes "\<not> self_is_complete w"
  shows "(api (api_log w) (self_job_id w) = Inl e \<longrightarrow>
            iscomplete api w = (Inl e, w\<lparr>api_log := api_log w @ [self_job_id w]\<rparr>) \<and>
            failed api w = (Inl e, w\<lparr>api_log := api_log w @ [self_job_id w]\<rparr>) \<and>
            fatal_error api w = (Inl e, w\<lparr>api_log := api_log w @ [self_job_id w]\<rparr>) \<and>
            errors api w = (Inl e, w\<lparr>api_log := api_log w @ [self_job_id w]\<rparr>) \<and>
            wait api timeout poll w =
              Some (Inl e, w\<lparr>api_log := api_log w @ [self_job_id w]\<rparr>)) \<and>
         (api (api_log w @ replicate i (self_job_id w)) (self_job_id w) = Inl e \<longrightarrow>
            (\<exists>y. wait api timeout poll w = Some y)) \<and>
         (wait api timeout poll w = Some (r, w') \<and>
          length (api_log w) \<le> k \<and> k < length (api_log w') \<and>
          api (take k (api_log w')) (self_job_id w) = Inl e \<longrightarrow>
            r = Inl e \<and> Suc k = length (api_log w') \<and>
            w' = w\<lparr>api_log := api_log w', sleep_log := sleep_log w'\<rparr>)"
proof (intro conjI impI)
  assume fail: "api (api_log w) (self_job_id w) = Inl e"
  with assms have rs: "refresh_state api w = (Inl e, w\<lparr>api_log := api_log w @ [self_job_id w]\<rparr>)"
    by (simp add: refresh_state_incomplete)
  then show "iscomplete api w = (Inl e, w\<lparr>api_log := api_log w @ [self_job_id w]\<rparr>)"
    and "failed api w = (Inl e, w\<lparr>api_log := api_log w @ [self_job_id w]\<rparr>)"
    and "fatal_error api w = (Inl e, w\<lparr>api_log := api_log w @ [self_job_id w]\<rparr>)"
    and "errors api w = (Inl e, w\<lparr>api_log := api_log w @ [self_job_id w]\<rparr>)"
    by (simp_all add: iscomplete_def failed_def fatal_error_def errors_def)
  then show "wait api timeout poll w = Some (Inl e, w\<lparr>api_log := api_log w @ [self_job_id w]\<rparr>)"
    by (subst wait.simps) simp
next
  assume "api (api_log w @ replicate i (self_job_id w)) (self_job_id w) = Inl e"
  then show "\<exists>y. wait api timeout poll w = Some y"
    by (rule wait_returns_when_api_raises)
next
  assume a: "wait api timeout poll w = Some (r, w') \<and>
          length (api_log w) \<le> k \<and> k < length (api_log w') \<and>
          api (take k (api_log w')) (self_job_id w) = Inl e"
  with assms wait_trace [of api timeout poll w "(r, w')"] obtain n where
    log: "api_log w' = api_log w @ replicate (Suc n) (self_job_id w)"
    by auto
  have "fst (r, w') = Inl e \<and> Suc k = length (api_log (snd (r, w'))) \<and>
      snd (r, w') = w\<lparr>api_log := api_log (snd (r, w')), sleep_log := sleep_log (snd (r, w'))\<rparr>"
  proof (rule wait_api_failure [where n = n])
    show "wait api timeout poll w = Some (r, w')" using a by simp
    show "\<not> self_is_complete w" by fact
    show "api_log (snd (r, w')) = api_log w @ replicate (Suc n) (self_job_id w)"
      using log by simp
    show "length (api_log w) \<le> k" using a by simp
    show "k < length (api_log (snd (r, w')))" using a by simp
    show "api (take k (api_log (snd (r, w')))) (self_job_id w) = Inl e" using a by simp
  qed
  then have "r = Inl e \<and> Suc k = length (api_log w') \<and>
            w' = w\<lparr>api_log := api_log w', sleep_log := sleep_log w'\<rparr>"
    by simp
  then show "r = Inl e" and "Suc k = length (api_log w')"
    and "w' = w\<lparr>api_log := api_log w', sleep_log := sleep_log w'\<rparr>"
    by simp_all
qed

lemma wait_interrupted_example:
  "wait (scripted [Inr running_reply] (Inl (ApiError ''unreachable''))) (Some 10) 5
       (init ''job1'' [] []) =
     Some (Inl (ApiError ''unreachable''), init ''job1'' [''job1'', ''job1''] [5])"
  by (simp add: wait.simps iscomplete_def refresh_state_def jobs_get_def read_response_def
      state_is_done_def sleep_def scripted_def running_reply_def init_def)

theorem transport_error_propagates_witness:
  "\<not> self_is_complete (init ''job1'' [] []) \<and>
   always (Inl (ApiError ''unreachable'')) [] ''job1'' = Inl (ApiError ''unreachable'') \<and>
   failed (always (Inl (ApiError ''unreachable''))) (init ''job1'' [] []) =
     (Inl (ApiError ''unreachable''), init ''job1'' [''job1''] []) \<and>
   wait (always (Inl (ApiError ''unreachable''))) None 5 (init ''job1'' [] []) =
     Some (Inl (ApiError ''unreachable''), init ''job1'' [''job1''] []) \<and>
   wait (scripted [Inr running_reply] (Inl (ApiError ''unreachable''))) (Some 10) 5
       (init ''job1'' [] []) =
     Some (Inl (ApiError ''unreachable''), init ''job1'' [''job1'', ''job1''] [5]) \<and>
   scripted [Inr running_reply] (Inl (ApiError ''unreachable'')) (take 1 [''job1'', ''job1'']) ''job1'' =
     Inl (ApiError ''unreachable'') \<and>
   Suc 1 = length [''job1'', ''job1'']"
  using transport_error_propagates
      [of "init ''job1'' [] []" "always (Inl (ApiError ''unreachable''))"
          "ApiError ''unreachable''" None 5 0]
    transport_error_propagates
      [of "init ''job1'' [] []" "scripted [Inr running_reply] (Inl (ApiError ''unreachable''))"
          "ApiError ''unreachable''" "Some 10" 5 1 "Inl (ApiError ''unreachable'')"
          "init ''job1'' [''job1'', ''job1''] [5]" 1]
    wait_interrupted_example
  by (simp add: init_def always_def scripted_def)

end
